theory Spec2Isabelle
  imports Main
begin

section \<open>Status rollup (app/utils.js)\<close>

text \<open>
  The three status groups are the string literals \<^verbatim>\<open>"running"\<close>, \<^verbatim>\<open>"alert"\<close> and
  \<^verbatim>\<open>"blocked"\<close>; the statuses reported by the API are arbitrary strings.
\<close>

datatype severity = Running | Alert | Blocked

text \<open>A \<^verbatim>\<open>{status, info}\<close> object as found under \<^verbatim>\<open>application.status\<close> and
  \<^verbatim>\<open>unit.agentStatus\<close>.\<close>

record status_info =
  status :: string
  info :: string

record juju_unit =
  agentStatus :: status_info

text \<open>
  A JavaScript object used as a dictionary is an association list in the order in which
  \<^verbatim>\<open>Object.keys\<close>, \<^verbatim>\<open>Object.entries\<close> and \<^verbatim>\<open>for ... in\<close> enumerate it. The keys of an
  object are distinct, so looking each enumerated key up again yields the entries in
  list order.
\<close>

record application =
  app_status :: status_info
  units :: "(string \<times> juju_unit) list"

text \<open>The object the three \<^verbatim>\<open>get...StatusGroup\<close> functions return.\<close>

record response =
  resp_status :: severity
  message :: "string option"

text \<open>\<^verbatim>\<open>const statusOrder = ["running", "alert", "blocked"]\<close>, highest status to the right.\<close>

definition statusOrder :: "severity list" where
  "statusOrder = [Running, Alert, Blocked]"

text \<open>\<^verbatim>\<open>Array.prototype.indexOf\<close>: the first index of the element, or -1.\<close>

fun indexOf :: "'a list \<Rightarrow> 'a \<Rightarrow> int" where
  "indexOf [] x = -1"
| "indexOf (y # ys) x =
     (if y = x then 0 else (let i = indexOf ys x in if i < 0 then -1 else i + 1))"

definition setHighestStatus :: "severity \<Rightarrow> severity \<Rightarrow> severity" where
  "setHighestStatus entityStatus highestStatus =
     (if indexOf statusOrder entityStatus > indexOf statusOrder highestStatus
      then entityStatus else highestStatus)"

definition checkHighestStatus :: "severity \<Rightarrow> bool" where
  "checkHighestStatus highestStatus =
     (highestStatus = statusOrder ! (length statusOrder - 1))"

text \<open>\<^verbatim>\<open>Array.prototype.includes\<close> on an array of strings.\<close>

definition js_includes :: "'a list \<Rightarrow> 'a \<Rightarrow> bool" where
  "js_includes xs x = (x \<in> set xs)"

text \<open>
  The response starts as \<^verbatim>\<open>{status: "running", message: null}\<close>; the two tests run one
  after the other, the second overwriting the first.
\<close>

definition classify :: "string list \<Rightarrow> string list \<Rightarrow> string \<Rightarrow> response" where
  "classify blocked alert st =
     (let response = \<lparr>resp_status = Running, message = None\<rparr>;
          response = (if js_includes blocked st
                      then response\<lparr>resp_status := Blocked\<rparr> else response);
          response = (if js_includes alert st
                      then response\<lparr>resp_status := Alert\<rparr> else response)
      in response)"

definition getApplicationStatusGroup :: "application \<Rightarrow> response" where
  "getApplicationStatusGroup app =
     classify [''blocked''] [''unknown''] (status (app_status app))"

definition getUnitStatusGroup :: "juju_unit \<Rightarrow> response" where
  "getUnitStatusGroup u =
     classify [''lost''] [''allocating''] (status (agentStatus u))"

text \<open>The result \<^verbatim>\<open>{highestStatus, messages}\<close>; during the loops it is the pair of the two
  local variables.\<close>

record rollup =
  highestStatus :: severity
  messages :: "string list"

text \<open>
  One call of the inner \<^verbatim>\<open>forEach\<close> callback. Its \<^verbatim>\<open>return\<close> is the last statement of
  the callback, so it only ends this call: \<^verbatim>\<open>forEach\<close> goes on with the next unit.
\<close>

definition unit_step :: "juju_unit \<Rightarrow> rollup \<Rightarrow> rollup" where
  "unit_step u acc =
     (let unitStatus = resp_status (getUnitStatusGroup u);
          hs = setHighestStatus unitStatus (highestStatus acc)
      in if checkHighestStatus hs
         then \<lparr>highestStatus = hs, messages = messages acc @ [info (agentStatus u)]\<rparr>
         else \<lparr>highestStatus = hs, messages = messages acc\<rparr>)"

text \<open>
  One call of the outer \<^verbatim>\<open>forEach\<close> callback: here the \<^verbatim>\<open>return\<close> comes before the
  loop over the units and skips it.
\<close>

definition app_step :: "application \<Rightarrow> rollup \<Rightarrow> rollup" where
  "app_step app acc =
     (let appStatus = resp_status (getApplicationStatusGroup app);
          hs = setHighestStatus appStatus (highestStatus acc)
      in if checkHighestStatus hs
         then \<lparr>highestStatus = hs, messages = messages acc @ [info (app_status app)]\<rparr>
         else fold unit_step (map snd (units app))
                \<lparr>highestStatus = hs, messages = messages acc\<rparr>)"

text \<open>The part of a model record that the rollup reads, and the fields the filters read.\<close>

record model_summary =
  cloudTag :: string
  region :: string

record model_info =
  ownerTag :: string
  cloudCredentialTag :: string
  cloudRegion :: string
  info_cloudTag :: string

record model_data =
  applications :: "(string \<times> application) list"
  model :: model_summary
  model_info :: "model_info option"

definition getModelStatusGroupData :: "model_data \<Rightarrow> rollup" where
  "getModelStatusGroupData m =
     fold app_step (map snd (applications m))
       \<lparr>highestStatus = statusOrder ! 0, messages = []\<rparr>"

subsection \<open>The order of the status groups and the entities of a model\<close>

text \<open>The fixed order \<^verbatim>\<open>running < alert < blocked\<close>.\<close>

fun rank :: "severity \<Rightarrow> nat" where
  "rank Running = 0"
| "rank Alert = 1"
| "rank Blocked = 2"

instantiation severity :: linorder
begin

definition less_eq_severity :: "severity \<Rightarrow> severity \<Rightarrow> bool" where
  "less_eq_severity a b = (rank a \<le> rank b)"

definition less_severity :: "severity \<Rightarrow> severity \<Rightarrow> bool" where
  "less_severity a b = (rank a < rank b)"

instance
proof
  fix a b c :: severity
  show "(a < b) = (a \<le> b \<and> \<not> b \<le> a)"
    by (auto simp: less_eq_severity_def less_severity_def)
  show "a \<le> a"
    by (simp add: less_eq_severity_def)
  show "a \<le> b \<Longrightarrow> b \<le> c \<Longrightarrow> a \<le> c"
    by (simp add: less_eq_severity_def)
  show "a \<le> b \<Longrightarrow> b \<le> a \<Longrightarrow> a = b"
    by (cases a; cases b) (simp_all add: less_eq_severity_def)
  show "a \<le> b \<or> b \<le> a"
    by (auto simp: less_eq_severity_def)
qed

end

text \<open>
  The classification as the specification words it: an application is blocked when its
  status is \<^verbatim>\<open>"blocked"\<close>, alert when it is \<^verbatim>\<open>"unknown"\<close>, running otherwise; a unit is
  blocked when its agent status is \<^verbatim>\<open>"lost"\<close>, alert when it is \<^verbatim>\<open>"allocating"\<close>, running
  otherwise.
\<close>

definition app_severity :: "application \<Rightarrow> severity" where
  "app_severity app =
     (if status (app_status app) = ''blocked'' then Blocked
      else if status (app_status app) = ''unknown'' then Alert
      else Running)"

definition unit_severity :: "juju_unit \<Rightarrow> severity" where
  "unit_severity u =
     (if status (agentStatus u) = ''lost'' then Blocked
      else if status (agentStatus u) = ''allocating'' then Alert
      else Running)"

text \<open>The severities of all applications of a model and of all their units.\<close>

definition entity_severities :: "model_data \<Rightarrow> severity list" where
  "entity_severities m =
     concat (map (\<lambda>app. app_severity app # map unit_severity (map snd (units app)))
               (map snd (applications m)))"

subsection \<open>Two concrete models\<close>

text \<open>One application that is not blocked itself, whose first unit is lost.\<close>

definition model_lost_units :: model_data where
  "model_lost_units =
     \<lparr>applications =
        [(''mysql'',
          \<lparr>app_status = \<lparr>status = ''active'', info = ''ready''\<rparr>,
           units =
             [(''mysql/0'', \<lparr>agentStatus = \<lparr>status = ''lost'', info = ''agent lost''\<rparr>\<rparr>),
              (''mysql/1'', \<lparr>agentStatus = \<lparr>status = ''idle'', info = ''agent idle''\<rparr>\<rparr>)]\<rparr>)],
      model = \<lparr>cloudTag = ''cloud-aws'', region = ''eu-west-1''\<rparr>,
      model_info = None\<rparr>"

text \<open>Model B: two running applications with one allocating unit each.\<close>

definition model_B :: model_data where
  "model_B =
     \<lparr>applications =
        [(''app1'',
          \<lparr>app_status = \<lparr>status = ''running'', info = ''app1 info''\<rparr>,
           units =
             [(''app1/0'',
               \<lparr>agentStatus = \<lparr>status = ''allocating'', info = ''unit1 info''\<rparr>\<rparr>)]\<rparr>),
         (''app2'',
          \<lparr>app_status = \<lparr>status = ''running'', info = ''app2 info''\<rparr>,
           units =
             [(''app2/0'',
               \<lparr>agentStatus = \<lparr>status = ''allocating'', info = ''unit2 info''\<rparr>\<rparr>)]\<rparr>)],
      model = \<lparr>cloudTag = ''cloud-aws'', region = ''eu-west-1''\<rparr>,
      model_info = None\<rparr>"

section \<open>Grouping models by status (app/selectors.js)\<close>

text \<open>The object \<^verbatim>\<open>{blocked: [], alert: [], running: []}\<close>: the three keys are its fields.\<close>

record grouped =
  blocked :: "model_data list"
  alert :: "model_data list"
  running :: "model_data list"

text \<open>\<^verbatim>\<open>grouped[highestStatus].push(model)\<close>\<close>

definition push_group :: "severity \<Rightarrow> model_data \<Rightarrow> grouped \<Rightarrow> grouped" where
  "push_group key m g =
     (case key of
        Blocked \<Rightarrow> g\<lparr>blocked := blocked g @ [m]\<rparr>
      | Alert \<Rightarrow> g\<lparr>alert := alert g @ [m]\<rparr>
      | Running \<Rightarrow> g\<lparr>running := running g @ [m]\<rparr>)"

text \<open>The body of the \<^verbatim>\<open>for ... in\<close> loop.\<close>

definition group_step :: "string \<times> model_data \<Rightarrow> grouped \<Rightarrow> grouped" where
  "group_step entry g =
     (case entry of (modelUUID, model') \<Rightarrow>
        push_group (highestStatus (getModelStatusGroupData model')) model' g)"

text \<open>\<^verbatim>\<open>modelData\<close> is \<^verbatim>\<open>null\<close> when the store holds none: \<^verbatim>\<open>!modelData\<close> is then true.\<close>

definition groupModelsByStatus :: "(string \<times> model_data) list option \<Rightarrow> grouped" where
  "groupModelsByStatus modelData =
     (let grouped = \<lparr>blocked = [], alert = [], running = []\<rparr>
      in case modelData of
           None \<Rightarrow> grouped
         | Some md \<Rightarrow> fold group_step md grouped)"

record counts =
  count_blocked :: nat
  count_alert :: nat
  count_running :: nat

definition countModelStatusGroups :: "grouped \<Rightarrow> counts" where
  "countModelStatusGroups groupedModelStatuses =
     \<lparr>count_blocked = length (blocked groupedModelStatuses),
      count_alert = length (alert groupedModelStatuses),
      count_running = length (running groupedModelStatuses)\<rparr>"

text \<open>The bucket a model belongs to is the one named by its rollup.\<close>

definition in_group :: "severity \<Rightarrow> model_data \<Rightarrow> bool" where
  "in_group key m = (highestStatus (getModelStatusGroupData m) = key)"

section \<open>The root reducer (app/root.js)\<close>

text \<open>A JavaScript exception; the code under study raises only \<^verbatim>\<open>TypeError\<close>s (a property
  read or a method call on \<^verbatim>\<open>undefined\<close>).\<close>

datatype js_error = TypeError

text \<open>
  The path \<^verbatim>\<open>bakery.storage._store.localStorage\<close>: the bakery, its storage, the macaroon
  store of the storage and the key-value storage the store wraps. A missing key reads as
  \<^verbatim>\<open>undefined\<close>, here \<open>None\<close>.
\<close>

record macaroon_store =
  localStorage :: "string \<rightharpoonup> string"

record bakery_storage =
  store :: macaroon_store

record bakery =
  storage :: bakery_storage

text \<open>The state starts as \<^verbatim>\<open>{}\<close>: every field may be missing. \<open>'c\<close> is the type of the
  controller connection.\<close>

record 'c root_state =
  controllerConnection :: "'c option"
  bakery :: "bakery option"
  visitURL :: "string option"
  modelStatusPolling :: "bool option"
  collapsibleSidebar :: "bool option"

datatype 'c action =
    UpdateControllerConnection "'c option"
  | StoreBakery "bakery option"
  | StoreVisitURL "string option"
  | LogOut
  | ModelStatusPolling "bool option"
  | CollapsibleSidebar "bool option"
  | OtherAction

text \<open>
  \<^verbatim>\<open>produce(state, draftState => ...)\<close> returns the state the callback leaves in the draft.
  Under \<^verbatim>\<open>logOut\<close> the path is read through \<^verbatim>\<open>draftState.bakery\<close>, which raises when the
  state has no bakery.
\<close>

fun rootReducer :: "'c root_state \<Rightarrow> 'c action \<Rightarrow> js_error + 'c root_state" where
  "rootReducer draftState (UpdateControllerConnection payload) =
     Inr (draftState\<lparr>controllerConnection := payload\<rparr>)"
| "rootReducer draftState (StoreBakery payload) =
     Inr (draftState\<lparr>bakery := payload\<rparr>)"
| "rootReducer draftState (StoreVisitURL payload) =
     Inr (draftState\<lparr>visitURL := payload\<rparr>)"
| "rootReducer draftState LogOut =
     (case bakery draftState of
        None \<Rightarrow> Inl TypeError
      | Some b \<Rightarrow>
          Inr (draftState\<lparr>bakery := Some
                 (b\<lparr>storage := (storage b)\<lparr>store := (store (storage b))
                    \<lparr>localStorage :=
                       (localStorage (store (storage b)))(''identity'' := None)\<rparr>\<rparr>\<rparr>)\<rparr>))"
| "rootReducer draftState (ModelStatusPolling payload) =
     Inr (draftState\<lparr>modelStatusPolling := payload\<rparr>)"
| "rootReducer draftState (CollapsibleSidebar payload) =
     Inr (draftState\<lparr>collapsibleSidebar := payload\<rparr>)"
| "rootReducer draftState OtherAction = Inr draftState"

text \<open>A state after login: the store holds the identity token and one macaroon.\<close>

definition logged_in_bakery :: bakery where
  "logged_in_bakery =
     \<lparr>storage = \<lparr>store = \<lparr>localStorage =
        [''identity'' \<mapsto> ''aWRlbnRpdHk='',
         ''https://api.jujucharms.com/identity'' \<mapsto> ''bWFjYXJvb24='']\<rparr>\<rparr>\<rparr>"

definition logged_in_state :: "nat root_state" where
  "logged_in_state =
     \<lparr>controllerConnection = Some 1,
      bakery = Some logged_in_bakery,
      visitURL = None,
      modelStatusPolling = Some True,
      collapsibleSidebar = Some False\<rparr>"

section \<open>Strings\<close>

text \<open>\<^verbatim>\<open>s.startsWith(p)\<close>, written \<open>starts_with p s\<close>.\<close>

fun starts_with :: "string \<Rightarrow> string \<Rightarrow> bool" where
  "starts_with [] s = True"
| "starts_with (p # ps) [] = False"
| "starts_with (p # ps) (c # cs) = (p = c \<and> starts_with ps cs)"

text \<open>
  \<^verbatim>\<open>s.split(sep)\<close> for a non-empty separator string, which is what every call site passes:
  the string is scanned from the left, \<open>cur\<close> collects the piece in progress, and each
  occurrence of the separator ends a piece and is skipped.
\<close>

function split_from :: "string \<Rightarrow> string \<Rightarrow> string \<Rightarrow> string list" where
  "split_from sep cur [] = [cur]"
| "split_from sep cur (c # cs) =
     (if sep \<noteq> [] \<and> starts_with sep (c # cs)
      then cur # split_from sep [] (drop (length sep) (c # cs))
      else split_from sep (cur @ [c]) cs)"
  by pat_completeness auto

termination
  by (relation "measure (\<lambda>(sep, cur, s). length s)") auto

definition js_split :: "string \<Rightarrow> string \<Rightarrow> string list" where
  "js_split sep s = split_from sep [] s"

text \<open>\<^verbatim>\<open>xs[i]\<close>: \<^verbatim>\<open>undefined\<close>, here \<open>None\<close>, beyond the end of the array.\<close>

definition js_index :: "'a list \<Rightarrow> nat \<Rightarrow> 'a option" where
  "js_index xs i = (if i < length xs then Some (xs ! i) else None)"

text \<open>\<^verbatim>\<open>s.replace(pat, rep)\<close> with a string pattern: the first occurrence only.\<close>

fun js_replace :: "string \<Rightarrow> string \<Rightarrow> string \<Rightarrow> string" where
  "js_replace pat rep [] = (if pat = [] then rep else [])"
| "js_replace pat rep (c # cs) =
     (if starts_with pat (c # cs) then rep @ drop (length pat) (c # cs)
      else c # js_replace pat rep cs)"

section \<open>Extracting names from tags (app/utils.js)\<close>

text \<open>\<^verbatim>\<open>tag.split("@")[0].replace("user-", "")\<close>\<close>

definition extractOwnerName :: "string \<Rightarrow> js_error + string" where
  "extractOwnerName tag =
     (case js_index (js_split ''@'' tag) 0 of
        None \<Rightarrow> Inl TypeError
      | Some owner \<Rightarrow> Inr (js_replace ''user-'' [] owner))"

text \<open>\<^verbatim>\<open>tag.replace("cloud-", "")\<close>\<close>

definition extractCloudName :: "string \<Rightarrow> string" where
  "extractCloudName tag = js_replace ''cloud-'' [] tag"

text \<open>
  \<^verbatim>\<open>tag.split("cloudcred-")[1].split("@")[1].split("_")[1]\<close>: calling \<^verbatim>\<open>split\<close> on
  \<^verbatim>\<open>undefined\<close> raises; the last index may yield \<^verbatim>\<open>undefined\<close>, which is returned.
\<close>

definition extractCredentialName :: "string \<Rightarrow> js_error + string option" where
  "extractCredentialName tag =
     (case js_index (js_split ''cloudcred-'' tag) 1 of
        None \<Rightarrow> Inl TypeError
      | Some afterPrefix \<Rightarrow>
          (case js_index (js_split ''@'' afterPrefix) 1 of
             None \<Rightarrow> Inl TypeError
           | Some afterAt \<Rightarrow> Inr (js_index (js_split ''_'' afterAt) 1)))"

section \<open>Filtering models (\<^verbatim>\<open>filterModelData\<close> of the selectors)\<close>

text \<open>
  \<^verbatim>\<open>filterSegments\<close> maps a segment to the array of its values, in the order the segments
  were first seen. A value is \<^verbatim>\<open>undefined\<close> when the filter has no colon.
\<close>

type_synonym segments = "(string \<times> string option list) list"

text \<open>
  \<^verbatim>\<open>filterSegments\<close> starts as \<^verbatim>\<open>{}\<close>, which inherits the members of \<^verbatim>\<open>Object.prototype\<close>.
  Read under one of these names it yields an object that is truthy and has no
  \<^verbatim>\<open>push\<close>, so the call of \<^verbatim>\<open>push\<close> raises.
\<close>

definition object_prototype_keys :: "string list" where
  "object_prototype_keys =
     [''constructor'', ''__defineGetter__'', ''__defineSetter__'', ''hasOwnProperty'',
      ''__lookupGetter__'', ''__lookupSetter__'', ''isPrototypeOf'',
      ''propertyIsEnumerable'', ''toString'', ''valueOf'', ''__proto__'',
      ''toLocaleString'']"

text \<open>\<^verbatim>\<open>const values = filter.split(":")\<close>; \<^verbatim>\<open>values[0]\<close> is used as a property name, the
  name of \<^verbatim>\<open>undefined\<close> being \<^verbatim>\<open>"undefined"\<close>.\<close>

definition filter_segment :: "string \<Rightarrow> string" where
  "filter_segment f =
     (case js_index (js_split '':'' f) 0 of None \<Rightarrow> ''undefined'' | Some s \<Rightarrow> s)"

definition filter_value :: "string \<Rightarrow> string option" where
  "filter_value f = js_index (js_split '':'' f) 1"

text \<open>\<^verbatim>\<open>if (!filterSegments[k]) filterSegments[k] = []; filterSegments[k].push(v)\<close> on an own
  property.\<close>

fun push_segment :: "string \<Rightarrow> string option \<Rightarrow> segments \<Rightarrow> segments" where
  "push_segment k v [] = [(k, [v])]"
| "push_segment k v ((k', vs) # rest) =
     (if k' = k then (k', vs @ [v]) # rest else (k', vs) # push_segment k v rest)"

definition collect_filter :: "string \<Rightarrow> segments \<Rightarrow> js_error + segments" where
  "collect_filter f filterSegments =
     (if filter_segment f \<in> set object_prototype_keys then Inl TypeError
      else Inr (push_segment (filter_segment f) (filter_value f) filterSegments))"

fun collect_segments :: "string list \<Rightarrow> segments \<Rightarrow> js_error + segments" where
  "collect_segments [] filterSegments = Inr filterSegments"
| "collect_segments (f # fs) filterSegments =
     (case collect_filter f filterSegments of
        Inl e \<Rightarrow> Inl e
      | Inr filterSegments' \<Rightarrow> collect_segments fs filterSegments')"

text \<open>The callback of \<^verbatim>\<open>some\<close>: the \<^verbatim>\<open>switch\<close> on the segment. A \<^verbatim>\<open>break\<close> leads to the
  final \<^verbatim>\<open>return false\<close>, as does a segment that is none of the four.\<close>

definition segment_removes :: "string \<Rightarrow> string option list \<Rightarrow> model_data \<Rightarrow> js_error + bool" where
  "segment_removes segment vals data =
     (if segment = ''cloud''
      then Inr (\<not> js_includes vals (Some (extractCloudName (cloudTag (model data)))))
      else if segment = ''credential''
      then (case model_info data of
              Some i \<Rightarrow>
                (case extractCredentialName (cloudCredentialTag i) of
                   Inl e \<Rightarrow> Inl e
                 | Inr credential \<Rightarrow> Inr (\<not> js_includes vals credential))
            | None \<Rightarrow> Inr False)
      else if segment = ''region''
      then Inr (\<not> js_includes vals (Some (region (model data))))
      else if segment = ''owner''
      then (case model_info data of
              Some i \<Rightarrow>
                (case extractOwnerName (ownerTag i) of
                   Inl e \<Rightarrow> Inl e
                 | Inr owner \<Rightarrow> Inr (\<not> js_includes vals (Some owner)))
            | None \<Rightarrow> Inr False)
      else Inr False)"

text \<open>
  \<^verbatim>\<open>Object.entries(filterSegments).some(...)\<close> stops at the first segment that answers
  true. Segments named like an array index are enumerated before the others; they answer
  false without reading the model, so their place does not change the result.
\<close>

fun some_segment :: "segments \<Rightarrow> model_data \<Rightarrow> js_error + bool" where
  "some_segment [] data = Inr False"
| "some_segment ((segment, vals) # rest) data =
     (case segment_removes segment vals data of
        Inl e \<Rightarrow> Inl e
      | Inr True \<Rightarrow> Inr True
      | Inr False \<Rightarrow> some_segment rest data)"

text \<open>
  The loop over \<^verbatim>\<open>Object.entries(clonedModelData)\<close>: an entry for which a segment answers
  true is deleted from the clone. The keys of the clone are distinct, so deleting a key
  drops exactly the entry at hand. The clone is a deep copy; the caller's collection is
  the argument, which a function cannot change.
\<close>

fun filter_entries ::
  "segments \<Rightarrow> (string \<times> model_data) list \<Rightarrow> js_error + (string \<times> model_data) list" where
  "filter_entries filterSegments [] = Inr []"
| "filter_entries filterSegments ((uuid, data) # rest) =
     (case some_segment filterSegments data of
        Inl e \<Rightarrow> Inl e
      | Inr remove \<Rightarrow>
          (case filter_entries filterSegments rest of
             Inl e \<Rightarrow> Inl e
           | Inr kept \<Rightarrow> Inr (if remove then kept else (uuid, data) # kept)))"

text \<open>
  \<^verbatim>\<open>filters\<close> is \<open>None\<close> when no filter list is given (\<^verbatim>\<open>!filters\<close>); \<^verbatim>\<open>modelData\<close> is
  \<open>None\<close> when the store holds no model data, and \<^verbatim>\<open>Object.entries(null)\<close> raises.
\<close>

definition filterModelData ::
  "string list option \<Rightarrow> (string \<times> model_data) list option
     \<Rightarrow> js_error + (string \<times> model_data) list option" where
  "filterModelData filters modelData =
     (case filters of
        None \<Rightarrow> Inr modelData
      | Some fs \<Rightarrow>
          (case collect_segments fs [] of
             Inl e \<Rightarrow> Inl e
           | Inr filterSegments \<Rightarrow>
               (case modelData of
                  None \<Rightarrow> Inl TypeError
                | Some clonedModelData \<Rightarrow>
                    (case filter_entries filterSegments clonedModelData of
                       Inl e \<Rightarrow> Inl e
                     | Inr kept \<Rightarrow> Inr (Some kept)))))"

subsection \<open>What a filter list asks for\<close>

text \<open>
  The value set of a segment, in the specification's words: the values of the filters of
  the list that name the segment. A segment is present in the list when the set is not
  empty, and a model's value mismatches the segment when the segment is present and the
  value is not in its set.
\<close>

definition segment_values :: "string list \<Rightarrow> string \<Rightarrow> string option list" where
  "segment_values fs seg = map filter_value (filter (\<lambda>f. filter_segment f = seg) fs)"

definition mismatch :: "string list \<Rightarrow> string \<Rightarrow> string \<Rightarrow> bool" where
  "mismatch fs seg x =
     (segment_values fs seg \<noteq> [] \<and> Some x \<notin> set (segment_values fs seg))"

text \<open>Two models without their info record, on different clouds, and a filter list that
  names all four segments.\<close>

definition model_on :: "string \<Rightarrow> string \<Rightarrow> model_data" where
  "model_on cloud reg =
     \<lparr>applications = [], model = \<lparr>cloudTag = cloud, region = reg\<rparr>, model_info = None\<rparr>"

definition models_without_info :: "(string \<times> model_data) list" where
  "models_without_info =
     [(''uuid-1'', model_on ''cloud-aws'' ''eu-west-1''),
      (''uuid-2'', model_on ''cloud-gcp'' ''eu-west-1'')]"

definition four_filters :: "string list" where
  "four_filters = [''credential:base'', ''owner:bob'', ''cloud:aws'', ''region:eu-west-1'']"

text \<open>What collecting the filters \<open>pre\<close> leaves in \<^verbatim>\<open>filterSegments\<close>: one entry for each
  segment that is present, holding its values.\<close>

definition collected :: "string list \<Rightarrow> segments \<Rightarrow> bool" where
  "collected pre segs =
     (distinct (map fst segs) \<and>
      (\<forall>seg. map_of segs seg =
         (if segment_values pre seg = [] then None else Some (segment_values pre seg))))"

section \<open>The filters on offer (components/FilterTags/FilterTags.js)\<close>

text \<open>
  \<^verbatim>\<open>addFilter(type, value)\<close>: \<^verbatim>\<open>filters[type] = filters[type] || []\<close>, then the value is
  pushed unless the array includes it. The four types are no members of
  \<^verbatim>\<open>Object.prototype\<close>.
\<close>

fun addFilter :: "string \<Rightarrow> string option \<Rightarrow> segments \<Rightarrow> segments" where
  "addFilter kind v [] = [(kind, [v])]"
| "addFilter kind v ((k, vs) # rest) =
     (if k = kind then (k, if js_includes vs v then vs else vs @ [v]) # rest
      else (k, vs) # addFilter kind v rest)"

text \<open>The callback of the loop over \<^verbatim>\<open>Object.values(modelData)\<close>: a model without its info
  record is passed over.\<close>

definition model_filters :: "model_data \<Rightarrow> segments \<Rightarrow> js_error + segments" where
  "model_filters m filters =
     (case model_info m of
        None \<Rightarrow> Inr filters
      | Some i \<Rightarrow>
          (let filters = addFilter ''cloud'' (Some (extractCloudName (info_cloudTag i))) filters;
               filters = addFilter ''region'' (Some (cloudRegion i)) filters
           in case extractOwnerName (ownerTag i) of
                Inl e \<Rightarrow> Inl e
              | Inr ownerFilter \<Rightarrow>
                  (let filters = addFilter ''owner'' (Some ownerFilter) filters
                   in case extractCredentialName (cloudCredentialTag i) of
                        Inl e \<Rightarrow> Inl e
                      | Inr credentialFilter \<Rightarrow>
                          Inr (addFilter ''credential'' credentialFilter filters))))"

fun models_filters :: "(string \<times> model_data) list \<Rightarrow> segments \<Rightarrow> js_error + segments" where
  "models_filters [] filters = Inr filters"
| "models_filters ((uuid, m) # rest) filters =
     (case model_filters m filters of
        Inl e \<Rightarrow> Inl e
      | Inr filters' \<Rightarrow> models_filters rest filters')"

text \<open>The \<^verbatim>\<open>filters\<close> object the component builds on each render, from \<^verbatim>\<open>{}\<close>.\<close>

definition FilterTags_filters :: "(string \<times> model_data) list \<Rightarrow> js_error + segments" where
  "FilterTags_filters modelData = models_filters modelData []"

subsection \<open>Credential tags\<close>

text \<open>The tag \<^verbatim>\<open>cloudcred-<cloud>_<user>@<domain>_<name>\<close>.\<close>

definition credential_tag :: "string \<Rightarrow> string \<Rightarrow> string \<Rightarrow> string \<Rightarrow> string" where
  "credential_tag cloud user domain name =
     ''cloudcred-'' @ cloud @ ''_'' @ user @ ''@'' @ domain @ ''_'' @ name"

text \<open>\<^verbatim>\<open>s.includes(sub)\<close>, written \<open>js_contains sub s\<close>.\<close>

fun js_contains :: "string \<Rightarrow> string \<Rightarrow> bool" where
  "js_contains sub [] = (sub = [])"
| "js_contains sub (c # cs) = (starts_with sub (c # cs) \<or> js_contains sub cs)"

text \<open>What follows the first occurrence of a non-empty \<open>sep\<close> in a string; nothing when
  there is none.\<close>

fun after_first :: "string \<Rightarrow> string \<Rightarrow> string" where
  "after_first sep [] = []"
| "after_first sep (c # cs) =
     (if starts_with sep (c # cs) then drop (length sep) (c # cs) else after_first sep cs)"

text \<open>
  The parts of a tag delimit it when none contains \<^verbatim>\<open>@\<close>, neither the domain nor the name
  contains \<^verbatim>\<open>_\<close>, and \<^verbatim>\<open>cloudcred-\<close> does not occur again after the prefix.
\<close>

definition delimited :: "string \<Rightarrow> string \<Rightarrow> string \<Rightarrow> string \<Rightarrow> bool" where
  "delimited cloud user domain name =
     (CHR ''@'' \<notin> set cloud \<and> CHR ''@'' \<notin> set user \<and>
      CHR ''@'' \<notin> set domain \<and> CHR ''@'' \<notin> set name \<and>
      CHR ''_'' \<notin> set domain \<and> CHR ''_'' \<notin> set name \<and>
      \<not> js_contains ''cloudcred-'' (cloud @ ''_'' @ user @ ''@'' @ domain @ ''_'' @ name))"

text \<open>A tag is malformed when it does not contain \<^verbatim>\<open>cloudcred-\<close>, or when no \<^verbatim>\<open>@\<close> follows
  the first \<^verbatim>\<open>cloudcred-\<close>.\<close>

definition malformed :: "string \<Rightarrow> bool" where
  "malformed tag =
     (\<not> js_contains ''cloudcred-'' tag \<or> CHR ''@'' \<notin> set (after_first ''cloudcred-'' tag))"

text \<open>A model whose credential belongs to a local user, whose tag has no domain.\<close>

definition local_user_model :: model_data where
  "local_user_model =
     \<lparr>applications = [],
      model = \<lparr>cloudTag = ''cloud-localhost'', region = ''localhost''\<rparr>,
      model_info = Some \<lparr>ownerTag = ''user-admin'',
                         cloudCredentialTag = ''cloudcred-localhost_admin_localhost'',
                         cloudRegion = ''localhost'',
                         info_cloudTag = ''cloud-localhost''\<rparr>\<rparr>"

section \<open>Polling the model statuses (the juju module)\<close>

text \<open>
  One task of the queue of \<^verbatim>\<open>fetchAllModelStatuses\<close>, run against a world that answers
  its reads: what \<^verbatim>\<open>continueModelStatusPolling(reduxStore.getState())\<close> yields when the
  task starts, when the status fetch has completed and when the info fetch has
  completed, and what the two fetches reply (\<^verbatim>\<open>fetchModelStatus\<close> replies \<^verbatim>\<open>null\<close> after a
  timeout). The task suspends at the two fetches only.
\<close>

record ('s, 'i) world =
  polling_at_start :: bool
  polling_after_status :: bool
  polling_after_info :: bool
  status_reply :: "'s option"
  info_reply :: 'i

text \<open>What a task does, in order: its requests and the actions it dispatches to the store.\<close>

datatype ('s, 'i) event =
    FetchModelStatus string
  | UpdateModelStatus string 's
  | FetchModelInfo string
  | UpdateModelInfo 'i
  | Done

text \<open>\<^verbatim>\<open>fetchAndStoreModelStatus\<close> dispatches as soon as the status has arrived; it does not
  read the polling flag.\<close>

definition fetchAndStoreModelStatus :: "('s, 'i) world \<Rightarrow> string \<Rightarrow> ('s, 'i) event list" where
  "fetchAndStoreModelStatus w modelUUID =
     FetchModelStatus modelUUID #
     (case status_reply w of
        None \<Rightarrow> []
      | Some st \<Rightarrow> [UpdateModelStatus modelUUID st])"

definition poll_task :: "('s, 'i) world \<Rightarrow> string \<Rightarrow> ('s, 'i) event list" where
  "poll_task w modelUUID =
     (if polling_at_start w
      then fetchAndStoreModelStatus w modelUUID @
           [FetchModelInfo modelUUID] @
           (if polling_after_info w then [UpdateModelInfo (info_reply w)] else [])
      else []) @
     [Done]"

text \<open>Polling is switched off (the user logs out) while the status fetch is under way.\<close>

definition logout_during_status_fetch :: "(string, string) world" where
  "logout_during_status_fetch =
     \<lparr>polling_at_start = True,
      polling_after_status = False,
      polling_after_info = False,
      status_reply = Some ''full status'',
      info_reply = ''model info''\<rparr>"

section \<open>Properties\<close>

subsection \<open>Status rollup\<close>

lemma indexOf_statusOrder: "indexOf statusOrder s = int (rank s)"
  by (cases s) (simp_all add: statusOrder_def)

lemma setHighestStatus_max: "setHighestStatus e h = max e h"
  by (simp add: setHighestStatus_def indexOf_statusOrder max_def less_eq_severity_def)

lemma checkHighestStatus_Blocked: "checkHighestStatus h = (h = Blocked)"
  by (simp add: checkHighestStatus_def statusOrder_def)

lemma app_group: "resp_status (getApplicationStatusGroup app) = app_severity app"
  by (simp add: getApplicationStatusGroup_def classify_def js_includes_def app_severity_def)

lemma unit_group: "resp_status (getUnitStatusGroup u) = unit_severity u"
  by (simp add: getUnitStatusGroup_def classify_def js_includes_def unit_severity_def)

lemma Blocked_top: "max e Blocked = Blocked" "max Blocked e = Blocked"
  by (cases e; simp add: max_def less_eq_severity_def)+

lemma Running_bot: "max e Running = e" "max Running e = e"
  by (cases e; simp add: max_def less_eq_severity_def)+

lemma unit_step_highest:
  "highestStatus (unit_step u acc) = max (unit_severity u) (highestStatus acc)"
  by (simp add: unit_step_def Let_def unit_group setHighestStatus_max)

lemma fold_unit_step_highest:
  "highestStatus (fold unit_step us acc) =
     fold max (map unit_severity us) (highestStatus acc)"
  by (induction us arbitrary: acc) (simp_all add: unit_step_highest)

lemma fold_max_Blocked: "fold max xs Blocked = Blocked"
  by (induction xs) (simp_all add: Blocked_top)

text \<open>Skipping the units of an application is sound: it happens only at the top.\<close>

lemma app_step_highest:
  "highestStatus (app_step app acc) =
     fold max (app_severity app # map unit_severity (map snd (units app)))
       (highestStatus acc)"
  by (simp add: app_step_def Let_def app_group setHighestStatus_max
        checkHighestStatus_Blocked fold_unit_step_highest fold_max_Blocked)

lemma fold_app_step_highest:
  "highestStatus (fold app_step apps acc) =
     fold max
       (concat (map (\<lambda>app. app_severity app # map unit_severity (map snd (units app))) apps))
       (highestStatus acc)"
  by (induction apps arbitrary: acc) (simp_all add: app_step_highest del: fold_simps(2))

lemma rollup_highest_fold:
  "highestStatus (getModelStatusGroupData m) = fold max (entity_severities m) Running"
  by (simp add: getModelStatusGroupData_def fold_app_step_highest entity_severities_def
        statusOrder_def)

text \<open>
  C1. The highest status of the rollup of a model is the greatest severity, in the order
  running < alert < blocked, among the model's applications and all their units, under
  the classification above; a model without applications rolls up to running.
\<close>

theorem C1_rollup_highest_is_max:
  "highestStatus (getModelStatusGroupData m) =
     (if entity_severities m = [] then Running else Max (set (entity_severities m)))"
proof (cases "entity_severities m")
  case Nil
  then show ?thesis
    by (simp add: rollup_highest_fold)
next
  case (Cons x xs)
  have "fold max (x # xs) Running = fold max xs x"
    by (simp add: Running_bot)
  also have "\<dots> = Max (set (x # xs))"
    by (simp only: Max.set_eq_fold)
  finally show ?thesis
    using Cons by (simp add: rollup_highest_fold)
qed

text \<open>Once the highest status is blocked, every further call of either callback pushes a
  message: neither loop ends early.\<close>

lemma unit_loop_at_blocked:
  "highestStatus acc = Blocked \<Longrightarrow>
     fold unit_step us acc =
       \<lparr>highestStatus = Blocked,
        messages = messages acc @ map (\<lambda>u. info (agentStatus u)) us\<rparr>"
proof (induction us arbitrary: acc)
  case Nil
  then show ?case by simp
next
  case (Cons u us)
  have "unit_step u acc =
      \<lparr>highestStatus = Blocked, messages = messages acc @ [info (agentStatus u)]\<rparr>"
    using Cons.prems
    by (simp add: unit_step_def Let_def setHighestStatus_max Blocked_top
          checkHighestStatus_Blocked)
  then show ?case
    using Cons.IH [of "unit_step u acc"] by simp
qed

lemma app_loop_at_blocked:
  "highestStatus acc = Blocked \<Longrightarrow>
     fold app_step apps acc =
       \<lparr>highestStatus = Blocked,
        messages = messages acc @ map (\<lambda>app. info (app_status app)) apps\<rparr>"
proof (induction apps arbitrary: acc)
  case Nil
  then show ?case by simp
next
  case (Cons app apps)
  have "app_step app acc =
      \<lparr>highestStatus = Blocked, messages = messages acc @ [info (app_status app)]\<rparr>"
    using Cons.prems
    by (simp add: app_step_def Let_def setHighestStatus_max Blocked_top
          checkHighestStatus_Blocked)
  then show ?case
    using Cons.IH [of "app_step app acc"] by simp
qed

lemmas rollup_eval =
  getModelStatusGroupData_def app_step_def unit_step_def getApplicationStatusGroup_def
  getUnitStatusGroup_def classify_def js_includes_def setHighestStatus_def
  checkHighestStatus_def statusOrder_def Let_def

text \<open>
  C2. The unit loop does not stop at the unit that raises the highest status to blocked:
  the \<^verbatim>\<open>return\<close> ends one call of the callback only, so the message of every later unit
  of the same application is appended as well. Here the second unit is idle, and its
  message follows the lost unit's.
\<close>

theorem C2_later_units_still_examined:
  "getModelStatusGroupData model_lost_units =
     \<lparr>highestStatus = Blocked, messages = [''agent lost'', ''agent idle'']\<rparr>"
  by (simp add: model_lost_units_def rollup_eval)

text \<open>
  C3, as stated, fails on model B: the messages are not the two units' messages.
\<close>

theorem C3_counterexample:
  "messages (getModelStatusGroupData model_B) \<noteq> [''unit1 info'', ''unit2 info'']"
  by (simp add: model_B_def rollup_eval)

text \<open>
  C3, amended. A message is stored only once the highest status is the last of
  \<^verbatim>\<open>statusOrder\<close>, blocked. A model with exactly two applications, both of status
  \<^verbatim>\<open>"running"\<close>, each with exactly one unit whose agent status is \<^verbatim>\<open>"allocating"\<close>, rolls up
  to alert with no message at all.
\<close>

theorem C3_alert_keeps_no_message:
  assumes "applications m = [(n1, a1), (n2, a2)]"
    and "status (app_status a1) = ''running''" and "status (app_status a2) = ''running''"
    and "units a1 = [(k1, u1)]" and "units a2 = [(k2, u2)]"
    and "status (agentStatus u1) = ''allocating''"
    and "status (agentStatus u2) = ''allocating''"
  shows "getModelStatusGroupData m = \<lparr>highestStatus = Alert, messages = []\<rparr>"
  using assms by (simp add: rollup_eval)

theorem C3_alert_keeps_no_message_witness:
  "getModelStatusGroupData model_B = \<lparr>highestStatus = Alert, messages = []\<rparr>"
  using C3_alert_keeps_no_message
    [of model_B "''app1''" "snd (applications model_B ! 0)"
        "''app2''" "snd (applications model_B ! 1)"
        "''app1/0''" "snd (units (snd (applications model_B ! 0)) ! 0)"
        "''app2/0''" "snd (units (snd (applications model_B ! 1)) ! 0)"]
  by (simp add: model_B_def)

subsection \<open>Grouping\<close>

lemma group_step_cases:
  "group_step (u, m) g =
     \<lparr>blocked = blocked g @ filter (in_group Blocked) [m],
      alert = alert g @ filter (in_group Alert) [m],
      running = running g @ filter (in_group Running) [m]\<rparr>"
  by (cases "highestStatus (getModelStatusGroupData m)")
     (simp_all add: group_step_def push_group_def in_group_def)

lemma fold_push_group:
  "fold group_step md g =
     \<lparr>blocked = blocked g @ filter (in_group Blocked) (map snd md),
      alert = alert g @ filter (in_group Alert) (map snd md),
      running = running g @ filter (in_group Running) (map snd md)\<rparr>"
proof (induction md arbitrary: g)
  case Nil
  show ?case by simp
next
  case (Cons e md)
  obtain u m where e: "e = (u, m)" by (cases e)
  show ?case
    by (simp add: e Cons.IH group_step_cases)
qed

lemma three_groups_length:
  "length (filter (in_group Blocked) ms) + length (filter (in_group Alert) ms)
     + length (filter (in_group Running) ms) = length ms"
proof (induction ms)
  case Nil
  show ?case by simp
next
  case (Cons m ms)
  then show ?case
    by (cases "highestStatus (getModelStatusGroupData m)") (simp_all add: in_group_def)
qed

text \<open>
  C4. The result always has the three buckets blocked, alert and running (empty for a
  missing collection); each bucket holds, in the iteration order of the input, exactly
  the models whose rollup names it, so every model is in exactly one bucket; the sizes of
  the buckets, which \<^verbatim>\<open>countModelStatusGroups\<close> tallies, add up to the number of models.
\<close>

theorem C4_groups_partition_the_models:
  "groupModelsByStatus None = \<lparr>blocked = [], alert = [], running = []\<rparr> \<and>
   groupModelsByStatus (Some md) =
     \<lparr>blocked = filter (in_group Blocked) (map snd md),
      alert = filter (in_group Alert) (map snd md),
      running = filter (in_group Running) (map snd md)\<rparr> \<and>
   length (blocked (groupModelsByStatus (Some md)))
     + length (alert (groupModelsByStatus (Some md)))
     + length (running (groupModelsByStatus (Some md))) = length md \<and>
   countModelStatusGroups (groupModelsByStatus (Some md)) =
     \<lparr>count_blocked = length (filter (in_group Blocked) (map snd md)),
      count_alert = length (filter (in_group Alert) (map snd md)),
      count_running = length (filter (in_group Running) (map snd md))\<rparr> \<and>
   count_blocked (countModelStatusGroups (groupModelsByStatus (Some md)))
     + count_alert (countModelStatusGroups (groupModelsByStatus (Some md)))
     + count_running (countModelStatusGroups (groupModelsByStatus (Some md))) = length md"
proof -
  have g: "groupModelsByStatus (Some md) =
     \<lparr>blocked = filter (in_group Blocked) (map snd md),
      alert = filter (in_group Alert) (map snd md),
      running = filter (in_group Running) (map snd md)\<rparr>"
    by (simp add: groupModelsByStatus_def fold_push_group)
  have n: "groupModelsByStatus None = \<lparr>blocked = [], alert = [], running = []\<rparr>"
    by (simp add: groupModelsByStatus_def)
  have l: "length (filter (in_group Blocked) (map snd md))
     + length (filter (in_group Alert) (map snd md))
     + length (filter (in_group Running) (map snd md)) = length md"
    using three_groups_length [of "map snd md"] by simp
  show ?thesis
    using l by (simp add: g n countModelStatusGroups_def)
qed

subsection \<open>Logging out\<close>

text \<open>
  C9. On a state that holds a bakery, the \<^verbatim>\<open>logOut\<close> action returns a state whose
  credential store has lost exactly the \<^verbatim>\<open>identity\<close> entry: every other entry of the store
  is as before, and so is every other field of the state.
\<close>

theorem C9_logOut_removes_only_identity:
  assumes "bakery s = Some b"
  shows "\<exists>s' b'. rootReducer s LogOut = Inr s' \<and> bakery s' = Some b' \<and>
           localStorage (store (storage b')) ''identity'' = None \<and>
           (\<forall>k. k \<noteq> ''identity'' \<longrightarrow>
              localStorage (store (storage b')) k = localStorage (store (storage b)) k) \<and>
           dom (localStorage (store (storage b'))) =
             dom (localStorage (store (storage b))) - {''identity''} \<and>
           controllerConnection s' = controllerConnection s \<and>
           visitURL s' = visitURL s \<and>
           modelStatusPolling s' = modelStatusPolling s \<and>
           collapsibleSidebar s' = collapsibleSidebar s \<and>
           s' = s\<lparr>bakery := Some b'\<rparr>"
  using assms by (auto simp: dom_def)

theorem C9_logOut_removes_only_identity_witness:
  "bakery logged_in_state = Some logged_in_bakery \<and>
   (\<exists>s' b'. rootReducer logged_in_state LogOut = Inr s' \<and> bakery s' = Some b' \<and>
      localStorage (store (storage b')) ''identity'' = None \<and>
      (\<forall>k. k \<noteq> ''identity'' \<longrightarrow>
         localStorage (store (storage b')) k =
         localStorage (store (storage logged_in_bakery)) k) \<and>
      dom (localStorage (store (storage b'))) =
        dom (localStorage (store (storage logged_in_bakery))) - {''identity''} \<and>
      controllerConnection s' = controllerConnection logged_in_state \<and>
      visitURL s' = visitURL logged_in_state \<and>
      modelStatusPolling s' = modelStatusPolling logged_in_state \<and>
      collapsibleSidebar s' = collapsibleSidebar logged_in_state \<and>
      s' = logged_in_state\<lparr>bakery := Some b'\<rparr>)"
proof -
  have h: "bakery logged_in_state = Some logged_in_bakery"
    by (simp add: logged_in_state_def)
  show ?thesis
    by (rule conjI [OF h C9_logOut_removes_only_identity [OF h]])
qed

subsection \<open>Filtering\<close>

lemma filter_entries_kept:
  "filter_entries segs es = Inr kept \<Longrightarrow> filter_entries segs kept = Inr kept"
proof (induction es arbitrary: kept)
  case Nil
  then show ?case by simp
next
  case (Cons e es)
  obtain u d where e: "e = (u, d)" by (cases e)
  from Cons.prems obtain r k where
    r: "some_segment segs d = Inr r" and k: "filter_entries segs es = Inr k"
    and kept: "kept = (if r then k else (u, d) # k)"
    by (auto simp: e split: sum.splits)
  have ih: "filter_entries segs k = Inr k"
    by (rule Cons.IH [OF k])
  show ?case
    by (cases r) (simp_all add: kept ih r)
qed

text \<open>
  C7. Filtering is idempotent: filtering the result of a filtering again, by the same
  filter list, changes nothing. A call that raises has no result to filter again, and
  the composition raises as the first call does.
\<close>

theorem C7_filtering_is_idempotent:
  "(case filterModelData filters modelData of
      Inl e \<Rightarrow> Inl e
    | Inr filtered \<Rightarrow> filterModelData filters filtered) =
   filterModelData filters modelData"
proof (cases "filterModelData filters modelData")
  case (Inl e)
  then show ?thesis by simp
next
  case (Inr filtered)
  have "filterModelData filters filtered = Inr filtered"
  proof (cases filters)
    case None
    then show ?thesis by (simp add: filterModelData_def)
  next
    case (Some fs)
    with Inr obtain segs md kept where
      segs: "collect_segments fs [] = Inr segs" and md: "modelData = Some md"
      and kept: "filter_entries segs md = Inr kept" and f: "filtered = Some kept"
      by (auto simp: filterModelData_def split: sum.splits option.splits)
    show ?thesis
      by (simp add: filterModelData_def Some segs f filter_entries_kept [OF kept])
  qed
  with Inr show ?thesis by simp
qed

lemma map_of_push_segment:
  "map_of (push_segment k v segs) =
     (map_of segs)(k \<mapsto> (case map_of segs k of None \<Rightarrow> [v] | Some vs \<Rightarrow> vs @ [v]))"
  by (induction segs) (auto simp: fun_eq_iff)

lemma keys_push_segment:
  "map fst (push_segment k v segs) =
     (if k \<in> fst ` set segs then map fst segs else map fst segs @ [k])"
proof (induction segs)
  case Nil
  show ?case by simp
next
  case (Cons s segs)
  obtain k' vs where s: "s = (k', vs)" by (cases s)
  show ?case
  proof (cases "k' = k")
    case True
    then show ?thesis by (simp add: s)
  next
    case False
    then show ?thesis by (simp add: s Cons.IH)
  qed
qed

lemma distinct_push_segment:
  "distinct (map fst segs) \<Longrightarrow> distinct (map fst (push_segment k v segs))"
  by (simp add: keys_push_segment)

lemma segment_values_snoc:
  "segment_values (pre @ [f]) seg =
     segment_values pre seg @ (if filter_segment f = seg then [filter_value f] else [])"
  by (simp add: segment_values_def)

lemma collected_push:
  assumes "collected pre segs"
  shows "collected (pre @ [f]) (push_segment (filter_segment f) (filter_value f) segs)"
  using assms
  by (auto simp: collected_def distinct_push_segment map_of_push_segment segment_values_snoc)

lemma collect_segments_collected:
  "collect_segments fs acc = Inr segs \<Longrightarrow> collected pre acc \<Longrightarrow> collected (pre @ fs) segs"
proof (induction fs arbitrary: acc pre)
  case Nil
  then show ?case by simp
next
  case (Cons f fs)
  from Cons.prems(1) have
    step: "collect_segments fs (push_segment (filter_segment f) (filter_value f) acc) = Inr segs"
    by (auto simp: collect_filter_def split: if_splits)
  from Cons.IH [OF step collected_push [OF Cons.prems(2)]]
  show ?case by simp
qed

lemma collected_mem:
  assumes "collect_segments fs [] = Inr segs"
  shows "((seg, vals) \<in> set segs) = (vals = segment_values fs seg \<and> vals \<noteq> [])"
proof -
  have "collected ([] @ fs) segs"
    by (rule collect_segments_collected [OF assms]) (simp add: collected_def segment_values_def)
  then have d: "distinct (map fst segs)"
    and m: "map_of segs seg =
      (if segment_values fs seg = [] then None else Some (segment_values fs seg))"
    by (simp_all add: collected_def)
  have "((seg, vals) \<in> set segs) = (map_of segs seg = Some vals)"
    using d by simp
  then show ?thesis
    by (auto simp: m)
qed

lemma some_segment_without_info:
  assumes "model_info data = None"
  shows "some_segment segs data =
     Inr (\<exists>(seg, vals)\<in>set segs.
            (seg = ''cloud'' \<and> Some (extractCloudName (cloudTag (model data))) \<notin> set vals) \<or>
            (seg = ''region'' \<and> Some (region (model data)) \<notin> set vals))"
proof (induction segs)
  case Nil
  show ?case by simp
next
  case (Cons s segs)
  obtain seg vals where s: "s = (seg, vals)" by (cases s)
  show ?case
    using assms Cons.IH
    by (auto simp: s segment_removes_def js_includes_def split: sum.splits bool.splits)
qed

lemma decision_without_info:
  assumes "model_info data = None" and "collect_segments fs [] = Inr segs"
  shows "some_segment segs data =
     Inr (mismatch fs ''cloud'' (extractCloudName (cloudTag (model data))) \<or>
          mismatch fs ''region'' (region (model data)))"
proof -
  have "(\<exists>(seg, vals)\<in>set segs.
            (seg = ''cloud'' \<and> Some (extractCloudName (cloudTag (model data))) \<notin> set vals) \<or>
            (seg = ''region'' \<and> Some (region (model data)) \<notin> set vals)) =
        (mismatch fs ''cloud'' (extractCloudName (cloudTag (model data))) \<or>
          mismatch fs ''region'' (region (model data)))"
    by (auto simp: collected_mem [OF assms(2)] mismatch_def)
  then show ?thesis
    by (simp add: some_segment_without_info [OF assms(1)])
qed

lemma filter_entries_set:
  "filter_entries segs md = Inr kept \<Longrightarrow>
     set kept = {(u, d). (u, d) \<in> set md \<and> some_segment segs d = Inr False}"
proof (induction md arbitrary: kept)
  case Nil
  then show ?case by simp
next
  case (Cons e es)
  obtain u d where e: "e = (u, d)" by (cases e)
  from Cons.prems obtain r k where
    r: "some_segment segs d = Inr r" and k: "filter_entries segs es = Inr k"
    and kept: "kept = (if r then k else (u, d) # k)"
    by (auto simp: e split: sum.splits)
  show ?case
    using Cons.IH [OF k] by (cases r) (auto simp: kept e r)
qed

text \<open>
  C8. A model without its info record is never removed on account of the credential or
  the owner segment, which read the info record: for such a model both are skipped, and
  they do not raise. Whenever the filtering returns, the model is kept unless the cloud
  or the region segment, which read the model's status, finds a definite mismatch.
\<close>

theorem C8_missing_info_is_skipped:
  assumes "filterModelData (Some fs) (Some md) = Inr (Some kept)"
    and "(uuid, data) \<in> set md"
    and "model_info data = None"
  shows "((uuid, data) \<in> set kept) =
     (\<not> mismatch fs ''cloud'' (extractCloudName (cloudTag (model data))) \<and>
      \<not> mismatch fs ''region'' (region (model data)))"
proof -
  from assms(1) obtain segs where
    segs: "collect_segments fs [] = Inr segs" and kept: "filter_entries segs md = Inr kept"
    by (auto simp: filterModelData_def split: sum.splits)
  show ?thesis
    using assms(2)
    by (simp add: filter_entries_set [OF kept] decision_without_info [OF assms(3) segs])
qed

lemmas filter_eval =
  filterModelData_def collect_filter_def filter_segment_def filter_value_def js_split_def
  js_index_def object_prototype_keys_def segment_removes_def js_includes_def
  extractCloudName_def extractOwnerName_def extractCredentialName_def

theorem C8_missing_info_is_skipped_witness:
  "filterModelData (Some four_filters) (Some models_without_info) =
     Inr (Some [(''uuid-1'', model_on ''cloud-aws'' ''eu-west-1'')]) \<and>
   (''uuid-1'', model_on ''cloud-aws'' ''eu-west-1'') \<in> set models_without_info \<and>
   model_info (model_on ''cloud-aws'' ''eu-west-1'') = None \<and>
   (((''uuid-1'', model_on ''cloud-aws'' ''eu-west-1'')
        \<in> set [(''uuid-1'', model_on ''cloud-aws'' ''eu-west-1'')]) =
     (\<not> mismatch four_filters ''cloud''
          (extractCloudName (cloudTag (model (model_on ''cloud-aws'' ''eu-west-1'')))) \<and>
      \<not> mismatch four_filters ''region'' (region (model (model_on ''cloud-aws'' ''eu-west-1'')))))"
proof -
  have h1: "filterModelData (Some four_filters) (Some models_without_info) =
     Inr (Some [(''uuid-1'', model_on ''cloud-aws'' ''eu-west-1'')])"
    by (simp add: four_filters_def models_without_info_def model_on_def filter_eval)
  have h2: "(''uuid-1'', model_on ''cloud-aws'' ''eu-west-1'') \<in> set models_without_info"
    by (simp add: models_without_info_def)
  have h3: "model_info (model_on ''cloud-aws'' ''eu-west-1'') = None"
    by (simp add: model_on_def)
  show ?thesis
    using h1 h2 h3 C8_missing_info_is_skipped [OF h1 h2 h3] by blast
qed

subsection \<open>Credential names\<close>

lemma split_from_absent:
  "\<not> js_contains sep s \<Longrightarrow> split_from sep cur s = [cur @ s]"
  by (induction s arbitrary: cur) auto

lemma starts_with_append: "starts_with sep (sep @ rest)"
  by (induction sep) auto

lemma split_from_at_head:
  assumes "sep \<noteq> []"
  shows "split_from sep cur (sep @ rest) = cur # split_from sep [] rest"
proof -
  obtain p ps where sep: "sep = p # ps"
    using assms by (cases sep) auto
  have "starts_with (p # ps) (p # ps @ rest)"
    using starts_with_append [of "p # ps" rest] by simp
  then show ?thesis
    by (simp add: sep)
qed

lemma split_from_char:
  "x \<notin> set a \<Longrightarrow> split_from [x] cur (a @ x # rest) = (cur @ a) # split_from [x] [] rest"
  by (induction a arbitrary: cur) auto

lemma js_contains_char: "js_contains [x] s = (x \<in> set s)"
  by (induction s) auto

lemma split_char_once:
  assumes "x \<notin> set a" and "x \<notin> set b"
  shows "js_split [x] (a @ x # b) = [a, b]"
  using assms
  by (simp add: js_split_def split_from_char split_from_absent js_contains_char)

lemma split_from_after_first:
  "sep \<noteq> [] \<Longrightarrow> js_contains sep s \<Longrightarrow>
     \<exists>a. split_from sep cur s = a # split_from sep [] (after_first sep s)"
  by (induction s arbitrary: cur) auto

lemma split_from_head:
  "\<exists>p ps. split_from sep cur s = p # ps \<and> set p \<subseteq> set cur \<union> set s"
proof (induction s arbitrary: cur)
  case Nil
  show ?case by simp
next
  case (Cons c cs)
  show ?case
  proof (cases "sep \<noteq> [] \<and> starts_with sep (c # cs)")
    case True
    then show ?thesis by auto
  next
    case False
    from Cons.IH [of "cur @ [c]"] obtain p ps where
      "split_from sep (cur @ [c]) cs = p # ps" and "set p \<subseteq> set (cur @ [c]) \<union> set cs"
      by blast
    with False show ?thesis by auto
  qed
qed

lemma js_split_nonempty: "js_split sep s \<noteq> []"
  using split_from_head [of sep "[]" s] by (auto simp: js_split_def)

text \<open>\<^verbatim>\<open>split\<close> always yields a first piece, so \<^verbatim>\<open>extractOwnerName\<close> never raises.\<close>

lemma extractOwnerName_returns: "\<exists>owner. extractOwnerName tag = Inr owner"
  using js_split_nonempty [of "''@''" tag]
  by (cases "js_split ''@'' tag") (simp_all add: extractOwnerName_def js_index_def)

lemma extractCredentialName_delimited:
  assumes "delimited cloud user domain name"
  shows "extractCredentialName (credential_tag cloud user domain name) = Inr (Some name)"
proof -
  let ?rest = "cloud @ ''_'' @ user @ ''@'' @ domain @ ''_'' @ name"
  have absent: "\<not> js_contains ''cloudcred-'' ?rest"
    using assms by (simp add: delimited_def)
  have "split_from ''cloudcred-'' [] (''cloudcred-'' @ ?rest) =
      [] # split_from ''cloudcred-'' [] ?rest"
    by (rule split_from_at_head) simp
  then have "js_split ''cloudcred-'' (''cloudcred-'' @ ?rest) = [[], ?rest]"
    using split_from_absent [OF absent, of "[]"] by (simp add: js_split_def)
  then have 1: "js_index (js_split ''cloudcred-'' (credential_tag cloud user domain name)) 1
      = Some ?rest"
    by (simp add: credential_tag_def js_index_def)
  have "js_split ''@'' ((cloud @ ''_'' @ user) @ CHR ''@'' # (domain @ ''_'' @ name))
      = [cloud @ ''_'' @ user, domain @ ''_'' @ name]"
    using assms by (intro split_char_once) (simp_all add: delimited_def)
  then have 2: "js_index (js_split ''@'' ?rest) 1 = Some (domain @ ''_'' @ name)"
    by (simp add: js_index_def)
  have "js_split ''_'' (domain @ CHR ''_'' # name) = [domain, name]"
    using assms by (intro split_char_once) (simp_all add: delimited_def)
  then have 3: "js_index (js_split ''_'' (domain @ ''_'' @ name)) 1 = Some name"
    by (simp add: js_index_def)
  show ?thesis
    by (simp only: extractCredentialName_def 1 2 3 option.case)
qed

lemma extractCredentialName_malformed:
  assumes "malformed tag"
  shows "extractCredentialName tag = Inl TypeError"
proof (cases "js_contains ''cloudcred-'' tag")
  case False
  then have "js_split ''cloudcred-'' tag = [tag]"
    by (simp add: js_split_def split_from_absent)
  then show ?thesis
    by (simp add: extractCredentialName_def js_index_def)
next
  case True
  with assms have no_at: "CHR ''@'' \<notin> set (after_first ''cloudcred-'' tag)"
    by (simp add: malformed_def)
  from split_from_after_first [OF _ True, of "[]"] obtain a where
    a: "js_split ''cloudcred-'' tag = a # split_from ''cloudcred-'' [] (after_first ''cloudcred-'' tag)"
    by (auto simp: js_split_def)
  from split_from_head [of "''cloudcred-''" "[]" "after_first ''cloudcred-'' tag"]
  obtain p ps where
    p: "split_from ''cloudcred-'' [] (after_first ''cloudcred-'' tag) = p # ps"
    and sub: "set p \<subseteq> set (after_first ''cloudcred-'' tag)"
    by auto
  have "CHR ''@'' \<notin> set p"
    using no_at sub by blast
  then have "js_split ''@'' p = [p]"
    by (simp add: js_split_def split_from_absent js_contains_char)
  then show ?thesis
    by (simp add: extractCredentialName_def js_index_def a p)
qed

lemma models_filters_raise:
  assumes "(uuid, m) \<in> set md" and "model_info m = Some i"
    and "extractCredentialName (cloudCredentialTag i) = Inl TypeError"
  shows "models_filters md filters = Inl TypeError"
  using assms(1)
proof (induction md arbitrary: filters)
  case Nil
  then show ?case by simp
next
  case (Cons e md)
  obtain u d where e: "e = (u, d)" by (cases e)
  show ?case
  proof (cases "model_filters d filters")
    case (Inl err)
    then show ?thesis by (cases err) (simp add: e)
  next
    case (Inr filters')
    have "(u, d) \<noteq> (uuid, m)"
    proof
      assume "(u, d) = (uuid, m)"
      then have "\<exists>err. model_filters d filters = Inl err"
        using assms(2,3)
        by (cases "extractOwnerName (ownerTag i)") (simp_all add: model_filters_def Let_def)
      with Inr show False by simp
    qed
    with Cons.prems have "(uuid, m) \<in> set md" by (auto simp: e)
    from Cons.IH [OF this] show ?thesis by (simp add: e Inr)
  qed
qed

lemma filter_entries_raise:
  assumes "(uuid, m) \<in> set md" and "some_segment segs m = Inl TypeError"
  shows "filter_entries segs md = Inl TypeError"
  using assms(1)
proof (induction md)
  case Nil
  then show ?case by simp
next
  case (Cons e md)
  obtain u d where e: "e = (u, d)" by (cases e)
  show ?case
  proof (cases "some_segment segs d")
    case (Inl err)
    then show ?thesis by (cases err) (simp add: e)
  next
    case (Inr r)
    with assms(2) have "(u, d) \<noteq> (uuid, m)" by auto
    with Cons.prems have "(uuid, m) \<in> set md" by (auto simp: e)
    from Cons.IH [OF this] show ?thesis by (simp add: e Inr)
  qed
qed

text \<open>
  Under \<^verbatim>\<open>some\<close> the credential segment is reached for a model unless an earlier segment
  has answered true. It is reached for certain when no other segment mismatches the
  model, and then a malformed tag makes the whole filtering raise.
\<close>

lemma some_segment_raise:
  assumes "(''credential'', vs) \<in> set segs"
    and "segment_removes ''credential'' vs m = Inl TypeError"
    and "\<forall>(seg, vals)\<in>set segs. seg \<noteq> ''credential'' \<longrightarrow> segment_removes seg vals m = Inr False"
    and "distinct (map fst segs)"
  shows "some_segment segs m = Inl TypeError"
  using assms(1,3,4)
proof (induction segs)
  case Nil
  then show ?case by simp
next
  case (Cons s segs)
  obtain seg vals where s: "s = (seg, vals)" by (cases s)
  show ?case
  proof (cases "seg = ''credential''")
    case True
    with Cons.prems(1,3) have "vals = vs"
      by (auto simp: s image_iff)
    with True assms(2) show ?thesis
      by (simp add: s)
  next
    case False
    with Cons.prems(2) have f: "segment_removes seg vals m = Inr False"
      by (simp add: s)
    from False Cons.prems have "some_segment segs m = Inl TypeError"
      by (intro Cons.IH) (auto simp: s)
    with f show ?thesis
      by (simp add: s)
  qed
qed

lemma credential_filter_raises:
  assumes "segment_values fs ''credential'' \<noteq> []"
    and "(uuid, m) \<in> set md" and "model_info m = Some i"
    and "extractCredentialName (cloudCredentialTag i) = Inl TypeError"
    and "\<not> mismatch fs ''cloud'' (extractCloudName (cloudTag (model m)))"
    and "\<not> mismatch fs ''region'' (region (model m))"
    and "extractOwnerName (ownerTag i) = Inr owner"
    and "\<not> mismatch fs ''owner'' owner"
  shows "filterModelData (Some fs) (Some md) = Inl TypeError"
proof (cases "collect_segments fs []")
  case (Inl err)
  then show ?thesis by (cases err) (simp add: filterModelData_def)
next
  case (Inr segs)
  have "collected ([] @ fs) segs"
    by (rule collect_segments_collected [OF Inr]) (simp add: collected_def segment_values_def)
  then have d: "distinct (map fst segs)"
    by (simp add: collected_def)
  have c: "(''credential'', segment_values fs ''credential'') \<in> set segs"
    using assms(1) by (simp add: collected_mem [OF Inr])
  have r: "segment_removes ''credential'' (segment_values fs ''credential'') m = Inl TypeError"
    using assms(3,4) by (simp add: segment_removes_def)
  have o: "\<forall>(seg, vals)\<in>set segs.
      seg \<noteq> ''credential'' \<longrightarrow> segment_removes seg vals m = Inr False"
  proof (clarify)
    fix seg vals
    assume "(seg, vals) \<in> set segs" and "seg \<noteq> ''credential''"
    then have v: "vals = segment_values fs seg" and ne: "segment_values fs seg \<noteq> []"
      by (auto simp: collected_mem [OF Inr])
    show "segment_removes seg vals m = Inr False"
      using assms(3,5,6,7,8) ne \<open>seg \<noteq> ''credential''\<close>
      by (auto simp: segment_removes_def js_includes_def mismatch_def v)
  qed
  from filter_entries_raise [OF assms(2) some_segment_raise [OF c r o d]] show ?thesis
    by (simp add: filterModelData_def Inr)
qed


text \<open>
  What does hold of \<^verbatim>\<open>extractCredentialName\<close>. It returns the name of a tag whose parts
  delimit it. It raises on a malformed tag (no \<^verbatim>\<open>cloudcred-\<close>, or no \<^verbatim>\<open>@\<close> after it)
  instead of returning. So building the filters on offer raises as soon as the
  collection holds a model whose info record carries a malformed credential tag; and
  filtering such a collection raises when the list holds a credential filter and no
  other segment mismatches that model.
\<close>

lemma extractCredentialName_is_partial:
  "(delimited cloud user domain name \<longrightarrow>
      extractCredentialName (credential_tag cloud user domain name) = Inr (Some name)) \<and>
   (malformed tag \<longrightarrow> extractCredentialName tag = Inl TypeError) \<and>
   ((uuid, m) \<in> set md \<and> model_info m = Some i \<and> malformed (cloudCredentialTag i) \<longrightarrow>
      FilterTags_filters md = Inl TypeError \<and>
      (segment_values fs ''credential'' \<noteq> [] \<and>
       \<not> mismatch fs ''cloud'' (extractCloudName (cloudTag (model m))) \<and>
       \<not> mismatch fs ''region'' (region (model m)) \<and>
       extractOwnerName (ownerTag i) = Inr owner \<and> \<not> mismatch fs ''owner'' owner \<longrightarrow>
         filterModelData (Some fs) (Some md) = Inl TypeError))"
proof (intro conjI impI)
  assume "delimited cloud user domain name"
  then show "extractCredentialName (credential_tag cloud user domain name) = Inr (Some name)"
    by (rule extractCredentialName_delimited)
next
  assume "malformed tag"
  then show "extractCredentialName tag = Inl TypeError"
    by (rule extractCredentialName_malformed)
next
  assume a: "(uuid, m) \<in> set md \<and> model_info m = Some i \<and> malformed (cloudCredentialTag i)"
  then have r: "extractCredentialName (cloudCredentialTag i) = Inl TypeError"
    by (simp add: extractCredentialName_malformed)
  from a have mem: "(uuid, m) \<in> set md" and i: "model_info m = Some i"
    by simp_all
  show "FilterTags_filters md = Inl TypeError"
    unfolding FilterTags_filters_def by (rule models_filters_raise [OF mem i r])
  assume b: "segment_values fs ''credential'' \<noteq> [] \<and>
       \<not> mismatch fs ''cloud'' (extractCloudName (cloudTag (model m))) \<and>
       \<not> mismatch fs ''region'' (region (model m)) \<and>
       extractOwnerName (ownerTag i) = Inr owner \<and> \<not> mismatch fs ''owner'' owner"
  then have b1: "segment_values fs ''credential'' \<noteq> []"
    and b2: "\<not> mismatch fs ''cloud'' (extractCloudName (cloudTag (model m)))"
    and b3: "\<not> mismatch fs ''region'' (region (model m))"
    and b4: "extractOwnerName (ownerTag i) = Inr owner"
    and b5: "\<not> mismatch fs ''owner'' owner"
    by simp_all
  show "filterModelData (Some fs) (Some md) = Inl TypeError"
    by (rule credential_filter_raises [OF b1 mem i r b2 b3 b4 b5])
qed

text \<open>
  On the model of a local user, whose tag has no \<^verbatim>\<open>@\<close>: the filters on offer cannot be
  built and a credential filter raises, also next to a cloud filter that matches; next to
  a cloud filter that mismatches, the model is removed before its tag is read.
\<close>

lemma extractCredentialName_is_partial_example:
  "extractCredentialName (credential_tag ''aws'' ''bob'' ''external'' ''base'') =
     Inr (Some ''base'') \<and>
   extractCredentialName ''cloudcred-localhost_admin_localhost'' = Inl TypeError \<and>
   FilterTags_filters [(''uuid-3'', local_user_model)] = Inl TypeError \<and>
   filterModelData (Some [''credential:base'']) (Some [(''uuid-3'', local_user_model)]) =
     Inl TypeError \<and>
   filterModelData (Some [''cloud:localhost'', ''credential:base''])
     (Some [(''uuid-3'', local_user_model)]) = Inl TypeError \<and>
   filterModelData (Some [''cloud:aws'', ''credential:base''])
     (Some [(''uuid-3'', local_user_model)]) = Inr (Some [])"
  by (simp add: credential_tag_def FilterTags_filters_def model_filters_def
        local_user_model_def filter_eval)

subsection \<open>Polling\<close>

text \<open>The two writes the flag does guard: nothing is fetched or stored when polling is
  off at the start, and the model info is not stored when polling is off after its
  fetch.\<close>

lemma poll_task_guards:
  "\<not> polling_at_start w \<Longrightarrow> poll_task w modelUUID = [Done]"
  "\<not> polling_after_info w \<Longrightarrow> UpdateModelInfo x \<notin> set (poll_task w modelUUID)"
  by (auto simp: poll_task_def fetchAndStoreModelStatus_def split: option.splits)

text \<open>
  C5. The flag is not read between the arrival of the status and its dispatch: when
  polling is switched off while the status fetch is under way, the fetched status is
  stored all the same. Only the model info is held back.
\<close>

theorem C5_status_is_stored_after_polling_stopped:
  "poll_task logout_during_status_fetch ''uuid-1'' =
     [FetchModelStatus ''uuid-1'', UpdateModelStatus ''uuid-1'' ''full status'',
      FetchModelInfo ''uuid-1'', Done]"
  by (simp add: poll_task_def fetchAndStoreModelStatus_def logout_during_status_fetch_def)

end
